theory Spec2Isabelle
  imports Main
begin

section \<open>The connection cache of \<open>src/v/rpc/connection_cache.cc\<close>\<close>

text \<open>
  The file defines three member functions of \<open>rpc::connection_cache\<close>:
  \<open>emplace\<close> (the spec's insert), \<open>remove\<close> and \<open>stop\<close>. Every instance lives on one
  shard of a thread-per-core runtime. The embedding is one instance, with explicit state
  passing: each operation takes the instance's state and returns the state after the call
  together with what the caller observes (an exception thrown by the call, or the state of
  the \<open>future<>\<close> it returned).
\<close>

subsection \<open>Data\<close>

type_synonym node_id = int
  \<comment> \<open>\<open>model::node_id\<close>; the code only compares node identifiers for equality\<close>

type_synonym shard_id = nat
  \<comment> \<open>the runtime's shard index (unsigned)\<close>

type_synonym handle = nat
  \<comment> \<open>the address held by an \<open>lw_shared_ptr<reconnect_transport>\<close>\<close>

text \<open>The host runtime, as far as the code reads it: \<open>engine().cpu_id()\<close> and the shard count.\<close>

record engine =
  smp_count :: nat
  cpu_id :: shard_id

text \<open>
  The exceptions. \<open>runtime_error\<close> is \<open>std::runtime_error(fmt::format(msg, n, s, cpu))\<close>,
  kept as the format string and its three arguments; the spec calls this error
  ShardAffinityViolation. \<open>transport_failure\<close> stands for whatever exception a transport's
  own shutdown resolves its future with.
\<close>

datatype exn =
    runtime_error string node_id shard_id shard_id
  | transport_failure string

text \<open>
  What the caller of a \<open>future<>\<close>-returning member function observes: the call threw before
  returning a future (\<open>Thrown\<close>), or it returned a future that is resolved (\<open>Ready\<close>),
  resolved with an exception (\<open>Failed\<close>), or not resolved yet (\<open>Waiting\<close>). A failed future
  holds one exception; where the runtime leaves open which one of several it holds,
  \<open>Failed xs\<close> lists the candidates.
\<close>

datatype future = Thrown exn | Ready | Failed "exn list" | Waiting

text \<open>
  The state of the \<open>future<>\<close> a single asynchronous operation has returned, at the moment
  somebody looks at it: not resolved yet, resolved, or resolved with an exception.
\<close>

datatype future_state = Pending | Resolved | Excepted exn

text \<open>
  Modelled from the spec: \<open>rpc::reconnect_transport\<close> is not part of the source file. The
  spec has it constructed from a transport configuration and exposing an asynchronous stop
  operation; the model keeps the configuration it was built from and counts the shutdown
  requests it has received. The configuration type is left open.
\<close>

record 'c reconnect_transport =
  config :: 'c
  stop_requests :: nat

text \<open>
  The two lambdas handed to \<open>with_semaphore\<close>, as data, so that a continuation that has to
  wait can be stored in the semaphore's wait list.
\<close>

datatype 'c mutation = emplace_body node_id 'c | erase_body node_id

text \<open>
  Modelled from the spec: the member declarations (\<open>_sem\<close>, \<open>_cache\<close>) are in the header,
  which is not part of the source. The spec has a mapping with unique keys from node
  identifier to shared transport handle and a single-slot semaphore. \<open>_cache\<close> is an
  association list (the iteration order of \<open>stop\<close> is the list's order); \<open>_sem\<close> is its
  number of available units and its FIFO wait list. \<open>transports\<close> is the store of the
  transport objects the handles point to: a handle is an index into it. Reference counting
  is not modelled: an object that no handle reaches any more simply stays in the store.
\<close>

record 'c connection_cache =
  sem_count :: int
  sem_waiters :: "'c mutation list"
  cache :: "(node_id \<times> handle) list"
  transports :: "'c reconnect_transport list"

subsection \<open>Collaborators\<close>

text \<open>
  Modelled from the spec: \<open>shard_for\<close> is declared in the header and its body is not part
  of the source. The spec has it as an opaque placement policy that is a function of the
  node identifier for a given shard count; the policy is the parameter \<open>policy\<close>.
\<close>

definition shard_for :: "(nat \<Rightarrow> node_id \<Rightarrow> shard_id) \<Rightarrow> engine \<Rightarrow> node_id \<Rightarrow> shard_id" where
  "shard_for policy e n = policy (smp_count e) n"

text \<open>\<open>make_lw_shared<rpc::reconnect_transport>(std::move(c))\<close>: a fresh object, built from \<open>c\<close>.\<close>

definition make_lw_shared ::
  "'c \<Rightarrow> 'c reconnect_transport list \<Rightarrow> handle \<times> 'c reconnect_transport list" where
  "make_lw_shared c ts = (length ts, ts @ [\<lparr>config = c, stop_requests = 0\<rparr>])"

text \<open>
  \<open>_cache.emplace(k, v)\<close> on a map with unique keys: the standard containers insert only if
  no element with that key exists, and leave the map as it is otherwise.
\<close>

definition map_emplace :: "node_id \<Rightarrow> handle \<Rightarrow> (node_id \<times> handle) list \<Rightarrow> (node_id \<times> handle) list" where
  "map_emplace n h m = (if map_of m n = None then m @ [(n, h)] else m)"

text \<open>\<open>_cache.erase(k)\<close>: removes the element with that key, if there is one.\<close>

definition map_erase :: "node_id \<Rightarrow> (node_id \<times> handle) list \<Rightarrow> (node_id \<times> handle) list" where
  "map_erase n m = filter (\<lambda>it. fst it \<noteq> n) m"

text \<open>The bodies of the two lambdas.\<close>

fun run :: "'c mutation \<Rightarrow> 'c connection_cache \<Rightarrow> 'c connection_cache" where
  "run (emplace_body n c) st =
     (let (h, ts) = make_lw_shared c (transports st)
      in st\<lparr>cache := map_emplace n h (cache st), transports := ts\<rparr>)"
| "run (erase_body n) st = st\<lparr>cache := map_erase n (cache st)\<rparr>"

text \<open>
  \<open>with_semaphore(_sem, units, f)\<close> of the runtime: wait for \<open>units\<close>, run \<open>f\<close>, give the
  units back. The wait succeeds at once when the units are available and nobody is queued;
  the body, which does not suspend, then runs and the units are returned (the wait list is
  empty on this path, so the signal has nobody to wake). Otherwise the continuation is
  appended to the wait list and the returned future is unresolved; when it is resumed is
  the scheduler's business and not part of this model.
\<close>

definition with_semaphore ::
  "int \<Rightarrow> 'c mutation \<Rightarrow> 'c connection_cache \<Rightarrow> future \<times> 'c connection_cache" where
  "with_semaphore units f st =
     (if units \<le> sem_count st \<and> sem_waiters st = [] then
        let st1 = st\<lparr>sem_count := sem_count st - units\<rparr>;
            st2 = run f st1;
            st3 = st2\<lparr>sem_count := sem_count st2 + units\<rparr>
        in (Ready, st3)
      else (Waiting, st\<lparr>sem_waiters := sem_waiters st @ [f]\<rparr>))"

text \<open>
  Modelled from the spec: \<open>reconnect_transport::stop\<close> is not part of the source. The spec
  has it as an asynchronous stop operation: the transport records the shutdown request and
  returns a future. How far that shutdown has got is the transport's own business, given by
  the parameter \<open>oc\<close>: the state of the future of the shutdown of the object at a handle, at
  the moment the caller looks at the future of \<open>connection_cache::stop\<close>. A later moment is
  another \<open>oc\<close>, in which shutdowns that were pending may have finished.
\<close>

definition transport_stop ::
  "(handle \<Rightarrow> future_state) \<Rightarrow> handle \<Rightarrow> 'c reconnect_transport list \<Rightarrow>
   future_state \<times> 'c reconnect_transport list" where
  "transport_stop oc h ts =
     (oc h,
      (if h < length ts then ts[h := (ts ! h)\<lparr>stop_requests := Suc (stop_requests (ts ! h))\<rparr>]
       else ts))"

text \<open>
  The future \<open>parallel_for_each\<close> returns, from the future of one invocation and the
  combined future of the others: it is not resolved while any of them is not; once all are
  resolved it is failed if any of them is, holding one of their exceptions, and resolved
  otherwise.
\<close>

fun when_all_done :: "future_state \<Rightarrow> future \<Rightarrow> future" where
  "when_all_done Pending r = Waiting"
| "when_all_done Resolved r = r"
| "when_all_done (Excepted x) Waiting = Waiting"
| "when_all_done (Excepted x) (Failed xs) = Failed (x # xs)"
| "when_all_done (Excepted x) r = Failed [x]"

text \<open>
  \<open>parallel_for_each(range, func)\<close> of the runtime: \<open>func\<close> is invoked on every element of
  the range, whatever the earlier invocations returned, and the returned future is the
  combination of theirs.
\<close>

fun parallel_for_each ::
  "'a list \<Rightarrow> ('a \<Rightarrow> 's \<Rightarrow> future_state \<times> 's) \<Rightarrow> 's \<Rightarrow> future \<times> 's" where
  "parallel_for_each [] func s = (Ready, s)"
| "parallel_for_each (it # its) func s =
     (let (f, s1) = func it s;
          (r, s2) = parallel_for_each its func s1
      in (when_all_done f r, s2))"

subsection \<open>The member functions\<close>

definition emplace ::
  "(nat \<Rightarrow> node_id \<Rightarrow> shard_id) \<Rightarrow> engine \<Rightarrow> node_id \<Rightarrow> 'c \<Rightarrow> 'c connection_cache \<Rightarrow>
   future \<times> 'c connection_cache" where
  "emplace policy e n c st =
     (let s = shard_for policy e n in
      if s \<noteq> cpu_id e then
        (Thrown (runtime_error
           ''Cannot ::emplace, node:{}, belonging to shard:{}, on shard:{}'' n s (cpu_id e)), st)
      else with_semaphore 1 (emplace_body n c) st)"

definition remove_node ::
  "(nat \<Rightarrow> node_id \<Rightarrow> shard_id) \<Rightarrow> engine \<Rightarrow> node_id \<Rightarrow> 'c connection_cache \<Rightarrow>
   future \<times> 'c connection_cache" where
  "remove_node policy e n st =
     (let s = shard_for policy e n in
      if s \<noteq> cpu_id e then
        (Thrown (runtime_error
           ''Cannot ::remove, node:{}, belonging to shard:{}, on shard:{}'' n s (cpu_id e)), st)
      else with_semaphore 1 (erase_body n) st)"

definition stop ::
  "(handle \<Rightarrow> future_state) \<Rightarrow> 'c connection_cache \<Rightarrow> future \<times> 'c connection_cache" where
  "stop oc st =
     (let (r, ts) = parallel_for_each (cache st) (\<lambda>it. transport_stop oc (snd it)) (transports st)
      in (r, st\<lparr>transports := ts\<rparr>))"

text \<open>
  Modelled from the spec: the lookup accessor is defined in the header, not in the source
  file. The spec has it return the current shared handle for the node on the local shard
  if present, otherwise an empty result, without mutating anything.
\<close>

definition lookup :: "node_id \<Rightarrow> 'c connection_cache \<Rightarrow> handle option" where
  "lookup n st = map_of (cache st) n"

text \<open>The mutation slot is free: a mutation issued now runs at once.\<close>

definition slot_free :: "'c connection_cache \<Rightarrow> bool" where
  "slot_free st \<longleftrightarrow> 1 \<le> sem_count st \<and> sem_waiters st = []"

text \<open>
  Modelled from the spec: a freshly constructed instance (the constructor is in the
  header): no entries, no transports, one unit in the semaphore, nobody waiting.
\<close>

definition initial :: "'c connection_cache" where
  "initial = \<lparr>sem_count = 1, sem_waiters = [], cache = [], transports = []\<rparr>"

text \<open>
  The shape of every state the member functions produce from \<open>initial\<close>: the keys are
  unique, every entry has a transport object of its own, and every handle points into the
  store.
\<close>

definition well_formed :: "'c connection_cache \<Rightarrow> bool" where
  "well_formed st \<longleftrightarrow>
     distinct (map fst (cache st)) \<and> distinct (map snd (cache st)) \<and>
     list_all (\<lambda>it. snd it < length (transports st)) (cache st)"

text \<open>A placement policy and an engine for the concrete instances below.\<close>

definition mod_policy :: "nat \<Rightarrow> node_id \<Rightarrow> shard_id" where
  "mod_policy cnt n = nat (n mod int cnt)"

definition shard0 :: engine where
  "shard0 = \<lparr>smp_count = 2, cpu_id = 0\<rparr>"

text \<open>
  A state in which the semaphore is exhausted and a mutation is queued, and a state with two
  entries and a free slot.
\<close>

definition busy :: "string connection_cache" where
  "busy = \<lparr>sem_count = 0, sem_waiters = [erase_body 4], cache = [(2, 0)],
           transports = [\<lparr>config = ''c0'', stop_requests = 0\<rparr>]\<rparr>"

definition two_entries :: "string connection_cache" where
  "two_entries = \<lparr>sem_count = 1, sem_waiters = [], cache = [(2, 0), (4, 1)],
           transports = [\<lparr>config = ''c0'', stop_requests = 0\<rparr>,
                         \<lparr>config = ''c4'', stop_requests = 0\<rparr>]\<rparr>"

text \<open>
  The exceptions of the failed shutdowns among the entries of a map, in iteration order.
\<close>

fun failures :: "(handle \<Rightarrow> future_state) \<Rightarrow> (node_id \<times> handle) list \<Rightarrow> exn list" where
  "failures oc [] = []"
| "failures oc (it # its) =
     (case oc (snd it) of Excepted x \<Rightarrow> x # failures oc its | _ \<Rightarrow> failures oc its)"

text \<open>
  A second shard of the same runtime, and three states of the transports' shutdowns: all
  finished; the one at handle 0 failed while the others are still pending; the one at
  handle 0 failed and the others finished.
\<close>

definition shard1 :: engine where
  "shard1 = \<lparr>smp_count = 2, cpu_id = 1\<rparr>"

definition no_failure :: "handle \<Rightarrow> future_state" where
  "no_failure h = Resolved"

definition first_failed_rest_pending :: "handle \<Rightarrow> future_state" where
  "first_failed_rest_pending h =
     (if h = 0 then Excepted (transport_failure ''connection reset'') else Pending)"

definition first_failed_rest_done :: "handle \<Rightarrow> future_state" where
  "first_failed_rest_done h =
     (if h = 0 then Excepted (transport_failure ''connection reset'') else Resolved)"

text \<open>
  The spec's scenarios A and B on shard 0, from a fresh instance: \<open>insert(A, C1)\<close> then
  \<open>stop()\<close>, and \<open>insert(A, C1)\<close> then \<open>insert(A, C2)\<close>, with node 0 for \<open>A\<close>.
\<close>

definition scenario_A :: "string connection_cache" where
  "scenario_A = snd (stop no_failure (snd (emplace mod_policy shard0 0 ''C1'' initial)))"

definition scenario_B :: "string connection_cache" where
  "scenario_B =
     snd (emplace mod_policy shard0 0 ''C2'' (snd (emplace mod_policy shard0 0 ''C1'' initial)))"

section \<open>Properties\<close>

subsection \<open>Basic facts\<close>

lemma lookup_map_erase_other: "m \<noteq> n \<Longrightarrow> map_of (map_erase n xs) m = map_of xs m"
  by (induction xs) (auto simp: map_erase_def)

lemma map_erase_absent: "map_of xs n = None \<Longrightarrow> map_erase n xs = xs"
  by (induction xs) (auto simp: map_erase_def split: if_splits)

lemma lookup_map_emplace_other: "m \<noteq> n \<Longrightarrow> map_of (map_emplace n h xs) m = map_of xs m"
  by (simp add: map_emplace_def map_add_def split: option.splits)

lemma run_transports_prefix:
  "h < length (transports st) \<Longrightarrow> transports (run f st) ! h = transports st ! h"
  by (cases f) (simp_all add: make_lw_shared_def nth_append)

lemma run_sem: "sem_count (run f st) = sem_count st \<and> sem_waiters (run f st) = sem_waiters st"
  by (cases f) (simp_all add: make_lw_shared_def)

lemma with_semaphore_cache_other:
  "m \<noteq> n \<Longrightarrow> map_of (cache (snd (with_semaphore u (emplace_body n c) st))) m = map_of (cache st) m"
  "m \<noteq> n \<Longrightarrow> map_of (cache (snd (with_semaphore u (erase_body n) st))) m = map_of (cache st) m"
  by (simp_all add: with_semaphore_def Let_def make_lw_shared_def
        lookup_map_emplace_other lookup_map_erase_other)

lemma with_semaphore_transports_prefix:
  "h < length (transports st) \<Longrightarrow>
   transports (snd (with_semaphore u f st)) ! h = transports st ! h"
  by (simp add: with_semaphore_def Let_def run_transports_prefix)

subsection \<open>Well-formed states\<close>

lemma well_formed_initial: "well_formed initial"
  by (simp add: well_formed_def initial_def)

lemma well_formed_run: "well_formed st \<Longrightarrow> well_formed (run f st)"
proof (cases f)
  case (emplace_body n c)
  assume w: "well_formed st"
  show ?thesis
  proof (cases "map_of (cache st) n = None")
    case True
    then have "n \<notin> fst ` set (cache st)" by (simp add: map_of_eq_None_iff)
    moreover have "length (transports st) \<notin> snd ` set (cache st)"
      using w by (auto simp: well_formed_def list_all_iff)
    ultimately show ?thesis
      using w True emplace_body
      by (auto simp: well_formed_def make_lw_shared_def map_emplace_def list_all_iff)
  next
    case False
    then show ?thesis
      using w emplace_body
      by (auto simp: well_formed_def make_lw_shared_def map_emplace_def list_all_iff)
  qed
next
  case (erase_body n)
  assume w: "well_formed st"
  then show ?thesis
    using erase_body
    by (auto simp: well_formed_def map_erase_def list_all_iff distinct_map_filter)
qed

lemma well_formed_with_semaphore: "well_formed st \<Longrightarrow> well_formed (snd (with_semaphore u f st))"
proof -
  assume w: "well_formed st"
  have a: "\<And>k s. well_formed s \<Longrightarrow> well_formed (s\<lparr>sem_count := k\<rparr>)" by (simp add: well_formed_def)
  have b: "\<And>k s. well_formed s \<Longrightarrow> well_formed (s\<lparr>sem_waiters := k\<rparr>)" by (simp add: well_formed_def)
  show ?thesis
    using w by (simp add: with_semaphore_def Let_def a b well_formed_run)
qed

lemma well_formed_emplace: "well_formed st \<Longrightarrow> well_formed (snd (emplace policy e n c st))"
  by (simp add: emplace_def Let_def well_formed_with_semaphore)

lemma well_formed_remove_node: "well_formed st \<Longrightarrow> well_formed (snd (remove_node policy e n st))"
  by (simp add: remove_node_def Let_def well_formed_with_semaphore)

subsection \<open>The shutdown fan-out\<close>

lemma transport_stop_length: "length (snd (transport_stop oc h ts)) = length ts"
  by (simp add: transport_stop_def)

lemma transport_stop_nth:
  "k < length ts \<Longrightarrow>
   snd (transport_stop oc h ts) ! k =
     (if k = h then (ts ! k)\<lparr>stop_requests := Suc (stop_requests (ts ! k))\<rparr> else ts ! k)"
  by (simp add: transport_stop_def)

lemma stop_all_length:
  "length (snd (parallel_for_each its (\<lambda>it. transport_stop oc (snd it)) ts)) = length ts"
  by (induction its arbitrary: ts) (simp_all add: split_beta Let_def transport_stop_length)

lemma stop_all_requests:
  "k < length ts \<Longrightarrow>
   stop_requests (snd (parallel_for_each its (\<lambda>it. transport_stop oc (snd it)) ts) ! k) =
     stop_requests (ts ! k) + count_list (map snd its) k"
proof (induction its arbitrary: ts)
  case Nil
  then show ?case by simp
next
  case (Cons it its)
  let ?ts1 = "snd (transport_stop oc (snd it) ts)"
  have len: "k < length ?ts1" using Cons.prems by (simp add: transport_stop_length)
  have "stop_requests (snd (parallel_for_each its (\<lambda>it. transport_stop oc (snd it)) ?ts1) ! k) =
          stop_requests (?ts1 ! k) + count_list (map snd its) k"
    by (rule Cons.IH [OF len])
  moreover have "stop_requests (?ts1 ! k) = stop_requests (ts ! k) + (if snd it = k then 1 else 0)"
    using Cons.prems by (auto simp: transport_stop_nth)
  ultimately show ?case
    by (simp add: split_beta Let_def)
qed

lemma stop_all_config:
  "k < length ts \<Longrightarrow>
   config (snd (parallel_for_each its (\<lambda>it. transport_stop oc (snd it)) ts) ! k) = config (ts ! k)"
proof (induction its arbitrary: ts)
  case Nil
  then show ?case by simp
next
  case (Cons it its)
  let ?ts1 = "snd (transport_stop oc (snd it) ts)"
  have len: "k < length ?ts1" using Cons.prems by (simp add: transport_stop_length)
  have "config (snd (parallel_for_each its (\<lambda>it. transport_stop oc (snd it)) ?ts1) ! k) = config (?ts1 ! k)"
    by (rule Cons.IH [OF len])
  moreover have "config (?ts1 ! k) = config (ts ! k)"
    using Cons.prems by (auto simp: transport_stop_nth)
  ultimately show ?case
    by (simp add: split_beta Let_def)
qed

lemma stop_all_state:
  "snd (parallel_for_each its (\<lambda>it. transport_stop oc (snd it)) ts) =
   snd (parallel_for_each its (\<lambda>it. transport_stop oc' (snd it)) ts)"
proof (induction its arbitrary: ts)
  case Nil
  then show ?case by simp
next
  case (Cons it its)
  have "snd (transport_stop oc (snd it) ts) = snd (transport_stop oc' (snd it) ts)"
    by (simp add: transport_stop_def)
  then show ?case
    using Cons.IH [of "snd (transport_stop oc' (snd it) ts)"]
    by (simp add: split_beta Let_def)
qed

lemma set_failures:
  "set (failures oc its) = {y. \<exists>it \<in> set its. oc (snd it) = Excepted y}"
  by (induction its) (auto split: future_state.splits)

lemma stop_all_future:
  "fst (parallel_for_each its (\<lambda>it. transport_stop oc (snd it)) ts) =
     (if \<exists>it \<in> set its. oc (snd it) = Pending then Waiting
      else if failures oc its = [] then Ready
      else Failed (failures oc its))"
proof (induction its arbitrary: ts)
  case Nil
  then show ?case by simp
next
  case (Cons it its)
  let ?ts1 = "snd (transport_stop oc (snd it) ts)"
  have step: "fst (parallel_for_each (it # its) (\<lambda>it. transport_stop oc (snd it)) ts) =
      when_all_done (oc (snd it))
        (fst (parallel_for_each its (\<lambda>it. transport_stop oc (snd it)) ?ts1))"
    by (simp add: split_beta Let_def transport_stop_def)
  show ?case
  proof (cases "oc (snd it)")
    case Pending
    then show ?thesis unfolding step by simp
  next
    case Resolved
    then show ?thesis unfolding step by (simp add: Cons.IH)
  next
    case (Excepted x)
    then show ?thesis unfolding step by (simp add: Cons.IH)
  qed
qed

lemma well_formed_stop: "well_formed st \<Longrightarrow> well_formed (snd (stop oc st))"
  by (simp add: stop_def split_beta well_formed_def stop_all_length)

subsection \<open>Mutations on the owning shard\<close>

lemma emplace_free_slot:
  assumes "shard_for policy e n = cpu_id e" and "slot_free st"
  shows "emplace policy e n c st =
           (Ready, st\<lparr>cache := map_emplace n (length (transports st)) (cache st),
                       transports := transports st @ [\<lparr>config = c, stop_requests = 0\<rparr>]\<rparr>)"
  using assms by (simp add: emplace_def with_semaphore_def slot_free_def make_lw_shared_def)

lemma remove_node_free_slot:
  assumes "shard_for policy e n = cpu_id e" and "slot_free st"
  shows "remove_node policy e n st = (Ready, st\<lparr>cache := map_erase n (cache st)\<rparr>)"
  using assms by (simp add: remove_node_def with_semaphore_def slot_free_def)

lemma emplace_present_cache:
  assumes "lookup n st \<noteq> None"
  shows "cache (snd (emplace policy e n c st)) = cache st"
  using assms
  by (auto simp: emplace_def with_semaphore_def make_lw_shared_def map_emplace_def lookup_def Let_def)

lemma emplace_transports_prefix:
  "h < length (transports st) \<Longrightarrow>
   transports (snd (emplace policy e n c st)) ! h = transports st ! h"
  by (simp add: emplace_def Let_def with_semaphore_transports_prefix)

lemma lookup_in_range:
  "well_formed st \<Longrightarrow> lookup n st = Some h \<Longrightarrow> h < length (transports st)"
  by (auto simp: well_formed_def lookup_def list_all_iff dest!: map_of_SomeD)

lemma count_list_distinct: "distinct xs \<Longrightarrow> x \<in> set xs \<Longrightarrow> count_list xs x = 1"
  by (induction xs) auto

lemma lookup_map_emplace_same:
  "map_of (map_emplace n h xs) n = (case map_of xs n of None \<Rightarrow> Some h | Some k \<Rightarrow> Some k)"
  by (simp add: map_emplace_def map_add_def split: option.splits)

lemma emplace_lookup_present:
  assumes "shard_for policy e n = cpu_id e" and "slot_free st"
  shows "lookup n (snd (emplace policy e n c st)) =
           (case lookup n st of None \<Rightarrow> Some (length (transports st)) | Some h \<Rightarrow> Some h)"
  using assms
  by (simp add: emplace_free_slot lookup_def lookup_map_emplace_same)

lemma emplace_slot_free:
  assumes "shard_for policy e n = cpu_id e" and "slot_free st"
  shows "slot_free (snd (emplace policy e n c st))"
  using assms by (simp add: emplace_free_slot) (simp add: slot_free_def)

lemma two_entries_reachable:
  "two_entries =
     snd (emplace mod_policy shard0 4 ''c4'' (snd (emplace mod_policy shard0 2 ''c0'' initial)))"
  by (simp add: two_entries_def emplace_def with_semaphore_def make_lw_shared_def map_emplace_def
        shard_for_def mod_policy_def shard0_def initial_def)

lemma owning_0: "shard_for mod_policy shard0 0 = cpu_id shard0"
  by (simp add: shard_for_def mod_policy_def shard0_def)

lemma owning_2: "shard_for mod_policy shard0 2 = cpu_id shard0"
  by (simp add: shard_for_def mod_policy_def shard0_def)

lemma owning_6: "shard_for mod_policy shard0 6 = cpu_id shard0"
  by (simp add: shard_for_def mod_policy_def shard0_def)

lemma slot_free_initial: "slot_free initial"
  by (simp add: slot_free_def initial_def)

lemma slot_free_two_entries: "slot_free two_entries"
  by (simp add: slot_free_def two_entries_def)

lemma well_formed_two_entries: "well_formed two_entries"
  by (simp add: well_formed_def two_entries_def)

lemma scenario_B_value:
  "scenario_B = \<lparr>sem_count = 1, sem_waiters = [], cache = [(0, 0)],
     transports = [\<lparr>config = ''C1'', stop_requests = 0\<rparr>, \<lparr>config = ''C2'', stop_requests = 0\<rparr>]\<rparr>"
  by (simp add: scenario_B_def emplace_def with_semaphore_def make_lw_shared_def map_emplace_def
        shard_for_def mod_policy_def shard0_def initial_def)

lemma scenario_A_value:
  "scenario_A = \<lparr>sem_count = 1, sem_waiters = [], cache = [(0, 0)],
     transports = [\<lparr>config = ''C1'', stop_requests = 1\<rparr>]\<rparr>"
  by (simp add: scenario_A_def stop_def transport_stop_def no_failure_def
        emplace_def with_semaphore_def make_lw_shared_def map_emplace_def
        shard_for_def mod_policy_def shard0_def initial_def)

subsection \<open>Shard affinity\<close>

text \<open>
  C3. For every node \<open>n\<close> and every shard on which \<open>shard_for n\<close> is not the shard the call
  runs on, \<open>emplace\<close> (insert) and \<open>remove\<close> throw the affinity error from the call itself
  (no future is returned) and the state after the call has the same map, and the same
  transport objects, as before.
\<close>

theorem wrong_shard_mutation_throws:
  assumes "shard_for policy e n \<noteq> cpu_id e"
  shows "fst (emplace policy e n c st) =
           Thrown (runtime_error ''Cannot ::emplace, node:{}, belonging to shard:{}, on shard:{}''
             n (shard_for policy e n) (cpu_id e)) \<and>
         fst (remove_node policy e n st) =
           Thrown (runtime_error ''Cannot ::remove, node:{}, belonging to shard:{}, on shard:{}''
             n (shard_for policy e n) (cpu_id e)) \<and>
         cache (snd (emplace policy e n c st)) = cache st \<and>
         cache (snd (remove_node policy e n st)) = cache st \<and>
         transports (snd (emplace policy e n c st)) = transports st \<and>
         transports (snd (remove_node policy e n st)) = transports st"
  using assms by (simp add: emplace_def remove_node_def Let_def)

theorem wrong_shard_mutation_throws_witness:
  "shard_for mod_policy shard0 3 \<noteq> cpu_id shard0 \<and>
   fst (emplace mod_policy shard0 3 ''c3'' two_entries) =
     Thrown (runtime_error ''Cannot ::emplace, node:{}, belonging to shard:{}, on shard:{}'' 3 1 0) \<and>
   fst (remove_node mod_policy shard0 3 two_entries) =
     Thrown (runtime_error ''Cannot ::remove, node:{}, belonging to shard:{}, on shard:{}'' 3 1 0) \<and>
   cache (snd (emplace mod_policy shard0 3 ''c3'' two_entries)) = [(2, 0), (4, 1)] \<and>
   cache (snd (remove_node mod_policy shard0 3 two_entries)) = [(2, 0), (4, 1)]"
proof -
  have h: "shard_for mod_policy shard0 3 \<noteq> cpu_id shard0"
    by (simp add: shard_for_def mod_policy_def shard0_def)
  show ?thesis
    using h wrong_shard_mutation_throws [OF h, of "''c3''" two_entries]
    by (simp add: shard_for_def mod_policy_def shard0_def two_entries_def)
qed

text \<open>
  C10. The affinity check comes before the semaphore: a wrong-shard \<open>emplace\<close> or \<open>remove\<close>
  throws whatever the state of the semaphore is, also when no unit is available or other
  mutations are queued (where a call on the owning shard would be left waiting), and the
  semaphore's units and its wait list are the same after the call as before.
\<close>

theorem wrong_shard_mutation_leaves_semaphore:
  assumes "shard_for policy e n \<noteq> cpu_id e"
  shows "fst (emplace policy e n c st) \<noteq> Waiting \<and> fst (emplace policy e n c st) \<noteq> Ready \<and>
         fst (remove_node policy e n st) \<noteq> Waiting \<and> fst (remove_node policy e n st) \<noteq> Ready \<and>
         sem_count (snd (emplace policy e n c st)) = sem_count st \<and>
         sem_waiters (snd (emplace policy e n c st)) = sem_waiters st \<and>
         sem_count (snd (remove_node policy e n st)) = sem_count st \<and>
         sem_waiters (snd (remove_node policy e n st)) = sem_waiters st \<and>
         snd (emplace policy e n c st) = st \<and>
         snd (remove_node policy e n st) = st"
  using assms by (simp add: emplace_def remove_node_def Let_def)

text \<open>
  On the owning shard the same call, with the semaphore exhausted, is queued instead; this
  is what the check would do to a wrong-shard call if it came after the wait.
\<close>

lemma owning_shard_busy_slot_waits:
  assumes "shard_for policy e n = cpu_id e" and "\<not> slot_free st"
  shows "emplace policy e n c st = (Waiting, st\<lparr>sem_waiters := sem_waiters st @ [emplace_body n c]\<rparr>)"
    and "remove_node policy e n st = (Waiting, st\<lparr>sem_waiters := sem_waiters st @ [erase_body n]\<rparr>)"
  using assms by (auto simp: emplace_def remove_node_def with_semaphore_def slot_free_def)

theorem wrong_shard_mutation_leaves_semaphore_witness:
  "shard_for mod_policy shard0 3 \<noteq> cpu_id shard0 \<and>
   fst (emplace mod_policy shard0 3 ''c3'' busy) \<noteq> Waiting \<and>
   fst (remove_node mod_policy shard0 3 busy) \<noteq> Waiting \<and>
   sem_count (snd (emplace mod_policy shard0 3 ''c3'' busy)) = 0 \<and>
   sem_waiters (snd (emplace mod_policy shard0 3 ''c3'' busy)) = [erase_body 4] \<and>
   sem_count (snd (remove_node mod_policy shard0 3 busy)) = 0 \<and>
   sem_waiters (snd (remove_node mod_policy shard0 3 busy)) = [erase_body 4] \<and>
   fst (emplace mod_policy shard0 2 ''c2'' busy) = Waiting"
proof -
  have h: "shard_for mod_policy shard0 3 \<noteq> cpu_id shard0"
    by (simp add: shard_for_def mod_policy_def shard0_def)
  have w: "fst (emplace mod_policy shard0 2 ''c2'' busy) = Waiting"
    by (simp add: emplace_def with_semaphore_def shard_for_def mod_policy_def shard0_def busy_def)
  show ?thesis
    using h w wrong_shard_mutation_leaves_semaphore [OF h, of "''c3''" busy]
    by (simp add: busy_def)
qed

subsection \<open>Insert, lookup and replacement\<close>

text \<open>
  C1, as the spec states it: after \<open>insert(n, C1)\<close> then \<open>insert(n, C2)\<close> on the owning shard,
  \<open>lookup(n)\<close> returns the transport built from \<open>C2\<close>. The code does not do that. In scenario
  B the second call constructs the transport at handle 1 from \<open>C2\<close>, but the map's \<open>emplace\<close>
  finds the key present and keeps the entry: \<open>lookup\<close> returns handle 0, the transport built
  from \<open>C1\<close>.
\<close>

theorem last_write_wins_counterexample:
  "lookup 0 scenario_B = Some 0 \<and>
   lookup 0 scenario_B \<noteq> Some 1 \<and>
   config (transports scenario_B ! 0) = ''C1'' \<and>
   config (transports scenario_B ! 0) \<noteq> ''C2'' \<and>
   config (transports scenario_B ! 1) = ''C2''"
  by (simp add: scenario_B_value lookup_def)

text \<open>
  C1, amended: on the owning shard, with the slot free, a second insert for a node leaves the
  entry of the first in place (first write wins). After \<open>insert(n, C1)\<close> then
  \<open>insert(n, C2)\<close> the second call succeeds, the map is the one the first call left,
  \<open>lookup(n)\<close> is non-empty and returns what it returned after the first call, which is not
  the transport the second call built from \<open>C2\<close>; and when the first call created the entry,
  \<open>lookup(n)\<close> returns the transport built from \<open>C1\<close>.
\<close>

theorem second_emplace_keeps_first_entry:
  assumes "shard_for policy e n = cpu_id e" and "slot_free st" and "well_formed st"
  shows "let st1 = snd (emplace policy e n c1 st);
             st2 = snd (emplace policy e n c2 st1)
         in fst (emplace policy e n c2 st1) = Ready \<and>
            cache st2 = cache st1 \<and>
            lookup n st2 = lookup n st1 \<and>
            lookup n st2 \<noteq> None \<and>
            lookup n st2 \<noteq> Some (fst (make_lw_shared c2 (transports st1))) \<and>
            (lookup n st = None \<longrightarrow>
               lookup n st2 = Some (length (transports st)) \<and>
               transports st2 ! length (transports st) = \<lparr>config = c1, stop_requests = 0\<rparr>)"
proof -
  let ?st1 = "snd (emplace policy e n c1 st)"
  let ?st2 = "snd (emplace policy e n c2 ?st1)"
  have free1: "slot_free ?st1" by (rule emplace_slot_free [OF assms(1,2)])
  have wf1: "well_formed ?st1" by (rule well_formed_emplace [OF assms(3)])
  have present: "lookup n ?st1 \<noteq> None"
    by (simp add: emplace_lookup_present [OF assms(1,2)] split: option.splits)
  have ready: "fst (emplace policy e n c2 ?st1) = Ready"
    by (simp add: emplace_free_slot [OF assms(1) free1])
  have same: "cache ?st2 = cache ?st1" by (rule emplace_present_cache [OF present])
  then have look: "lookup n ?st2 = lookup n ?st1" by (simp add: lookup_def)
  have fresh: "lookup n ?st1 \<noteq> Some (length (transports ?st1))"
    using lookup_in_range [OF wf1] by fastforce
  have len1: "transports ?st1 = transports st @ [\<lparr>config = c1, stop_requests = 0\<rparr>]"
    by (simp add: emplace_free_slot [OF assms(1,2)])
  have obj: "transports ?st2 ! length (transports st) = \<lparr>config = c1, stop_requests = 0\<rparr>"
    using emplace_transports_prefix [of "length (transports st)" ?st1 policy e n c2]
    by (simp add: len1)
  have first: "lookup n st = None \<Longrightarrow> lookup n ?st1 = Some (length (transports st))"
    by (simp add: emplace_lookup_present [OF assms(1,2)])
  show ?thesis
    using ready same look present fresh obj first
    by (simp add: Let_def make_lw_shared_def)
qed

theorem second_emplace_keeps_first_entry_witness:
  "shard_for mod_policy shard0 0 = cpu_id shard0 \<and> slot_free initial \<and>
   well_formed (initial :: string connection_cache) \<and>
   lookup 0 (initial :: string connection_cache) = None \<and>
   lookup 0 (snd (emplace mod_policy shard0 0 ''C2''
               (snd (emplace mod_policy shard0 0 ''C1'' initial)))) = Some 0 \<and>
   transports (snd (emplace mod_policy shard0 0 ''C2''
               (snd (emplace mod_policy shard0 0 ''C1'' initial)))) ! 0 =
     \<lparr>config = ''C1'', stop_requests = 0\<rparr>"
  using second_emplace_keeps_first_entry
          [OF owning_0 slot_free_initial well_formed_initial, of "''C1''" "''C2''"]
  by (simp add: Let_def lookup_def emplace_def with_semaphore_def make_lw_shared_def
        map_emplace_def shard_for_def mod_policy_def shard0_def initial_def slot_free_def
        well_formed_def)

text \<open>
  C7, as the spec states it: after \<open>insert(node, config)\<close> succeeds on the owning shard,
  \<open>lookup(node)\<close> returns a handle backed by \<open>config\<close>. It fails when the node already has
  an entry: on the state with entries for nodes 2 and 4, inserting node 2 with a new
  configuration succeeds, and \<open>lookup\<close> still returns the old transport.
\<close>

theorem lookup_backed_by_config_counterexample:
  "fst (emplace mod_policy shard0 2 ''new'' two_entries) = Ready \<and>
   lookup 2 (snd (emplace mod_policy shard0 2 ''new'' two_entries)) = Some 0 \<and>
   config (transports (snd (emplace mod_policy shard0 2 ''new'' two_entries)) ! 0) = ''c0'' \<and>
   config (transports (snd (emplace mod_policy shard0 2 ''new'' two_entries)) ! 0) \<noteq> ''new''"
  by (simp add: emplace_free_slot [OF owning_2 slot_free_two_entries] lookup_def map_emplace_def)
     (simp add: two_entries_def)

text \<open>
  C7, amended: after \<open>insert(node, config)\<close> succeeds on the owning shard (the slot is free,
  the state is well formed), \<open>lookup(node)\<close> returns a non-empty handle that points to a
  transport object. If the node had no entry before the call, that object is the transport
  just constructed from \<open>config\<close>; if it had one, \<open>lookup(node)\<close> returns what it returned
  before the call.
\<close>

theorem emplace_then_lookup:
  assumes "shard_for policy e n = cpu_id e" and "slot_free st" and "well_formed st"
  shows "fst (emplace policy e n c st) = Ready \<and>
         (\<exists>h. lookup n (snd (emplace policy e n c st)) = Some h \<and>
              h < length (transports (snd (emplace policy e n c st)))) \<and>
         (lookup n st = None \<longrightarrow>
            (\<exists>h. lookup n (snd (emplace policy e n c st)) = Some h \<and>
                 transports (snd (emplace policy e n c st)) ! h = \<lparr>config = c, stop_requests = 0\<rparr>)) \<and>
         (lookup n st \<noteq> None \<longrightarrow>
            lookup n (snd (emplace policy e n c st)) = lookup n st)"
proof -
  let ?st1 = "snd (emplace policy e n c st)"
  have ready: "fst (emplace policy e n c st) = Ready"
    by (simp add: emplace_free_slot [OF assms(1,2)])
  have wf1: "well_formed ?st1" by (rule well_formed_emplace [OF assms(3)])
  obtain h where h: "lookup n ?st1 = Some h"
    by (cases "lookup n st") (simp_all add: emplace_lookup_present [OF assms(1,2)])
  have range: "h < length (transports ?st1)" by (rule lookup_in_range [OF wf1 h])
  have new: "lookup n st = None \<Longrightarrow>
      lookup n ?st1 = Some (length (transports st)) \<and>
      transports ?st1 ! length (transports st) = \<lparr>config = c, stop_requests = 0\<rparr>"
    by (simp add: emplace_lookup_present [OF assms(1,2)]) (simp add: emplace_free_slot [OF assms(1,2)])
  have old: "lookup n st \<noteq> None \<Longrightarrow> lookup n ?st1 = lookup n st"
    by (auto simp: emplace_lookup_present [OF assms(1,2)])
  show ?thesis using ready h range new old by auto
qed

theorem emplace_then_lookup_witness:
  "shard_for mod_policy shard0 6 = cpu_id shard0 \<and> slot_free two_entries \<and>
   well_formed two_entries \<and> lookup 6 two_entries = None \<and>
   fst (emplace mod_policy shard0 6 ''c6'' two_entries) = Ready \<and>
   lookup 6 (snd (emplace mod_policy shard0 6 ''c6'' two_entries)) = Some 2 \<and>
   transports (snd (emplace mod_policy shard0 6 ''c6'' two_entries)) ! 2 =
     \<lparr>config = ''c6'', stop_requests = 0\<rparr>"
  using emplace_then_lookup
          [OF owning_6 slot_free_two_entries well_formed_two_entries, of "''c6''"]
  by (simp add: owning_6 slot_free_two_entries well_formed_two_entries
        emplace_free_slot [OF owning_6 slot_free_two_entries] lookup_def map_emplace_def)
     (simp add: two_entries_def)

subsection \<open>Removal and the frame of a mutation\<close>

text \<open>
  C6. For every node \<open>n\<close> without an entry, \<open>remove(n)\<close> on the owning shard raises nothing
  and leaves the map as it is: the future is resolved or, when the slot is taken, waiting;
  the lambda's body, whenever it runs on such a state, changes nothing; and with the slot
  free the call returns a resolved future and the very state it was given.
\<close>

theorem remove_absent_is_noop:
  assumes "shard_for policy e n = cpu_id e" and "lookup n st = None"
  shows "cache (snd (remove_node policy e n st)) = cache st \<and>
         (fst (remove_node policy e n st) = Ready \<or> fst (remove_node policy e n st) = Waiting) \<and>
         run (erase_body n) st = st \<and>
         (slot_free st \<longrightarrow> remove_node policy e n st = (Ready, st))"
  using assms
  by (simp add: remove_node_def with_semaphore_def slot_free_def lookup_def map_erase_absent)

theorem remove_absent_is_noop_witness:
  "shard_for mod_policy shard0 6 = cpu_id shard0 \<and> lookup 6 two_entries = None \<and>
   slot_free two_entries \<and>
   remove_node mod_policy shard0 6 two_entries = (Ready, two_entries) \<and>
   cache (snd (remove_node mod_policy shard0 6 two_entries)) = [(2, 0), (4, 1)]"
proof -
  have absent: "lookup 6 two_entries = None"
    by (simp add: lookup_def two_entries_def)
  show ?thesis
    using remove_absent_is_noop [OF owning_6 absent]
    by (simp add: owning_6 absent slot_free_two_entries) (simp add: two_entries_def)
qed

text \<open>
  C9. For distinct nodes \<open>n\<close> and \<open>m\<close>, \<open>emplace\<close> and \<open>remove\<close> of \<open>n\<close> leave \<open>lookup m\<close>
  (presence and handle) unchanged, and the transport objects that existed before the call
  are the same after it. This holds on the owning shard, and trivially on any other.
\<close>

theorem mutation_frame:
  assumes "m \<noteq> n"
  shows "lookup m (snd (emplace policy e n c st)) = lookup m st \<and>
         lookup m (snd (remove_node policy e n st)) = lookup m st \<and>
         (\<forall>h. h < length (transports st) \<longrightarrow>
            transports (snd (emplace policy e n c st)) ! h = transports st ! h) \<and>
         transports (snd (remove_node policy e n st)) = transports st"
proof -
  have "lookup m (snd (emplace policy e n c st)) = lookup m st"
    using assms by (simp add: lookup_def emplace_def Let_def with_semaphore_cache_other)
  moreover have "lookup m (snd (remove_node policy e n st)) = lookup m st"
    using assms by (simp add: lookup_def remove_node_def Let_def with_semaphore_cache_other)
  moreover have "transports (snd (remove_node policy e n st)) = transports st"
    by (simp add: remove_node_def Let_def with_semaphore_def)
  ultimately show ?thesis
    by (simp add: emplace_transports_prefix)
qed

theorem mutation_frame_witness:
  "(4::int) \<noteq> 6 \<and> (4::int) \<noteq> 2 \<and>
   lookup 4 two_entries = Some 1 \<and>
   lookup 6 (snd (emplace mod_policy shard0 6 ''c6'' two_entries)) = Some 2 \<and>
   lookup 4 (snd (emplace mod_policy shard0 6 ''c6'' two_entries)) = Some 1 \<and>
   transports (snd (emplace mod_policy shard0 6 ''c6'' two_entries)) ! 1 =
     \<lparr>config = ''c4'', stop_requests = 0\<rparr> \<and>
   lookup 2 (snd (remove_node mod_policy shard0 2 two_entries)) = None \<and>
   lookup 4 (snd (remove_node mod_policy shard0 2 two_entries)) = Some 1 \<and>
   transports (snd (remove_node mod_policy shard0 2 two_entries)) = transports two_entries"
proof -
  have ne6: "(4::int) \<noteq> 6" and ne2: "(4::int) \<noteq> 2" by simp_all
  have l4: "lookup 4 two_entries = Some 1" by (simp add: lookup_def two_entries_def)
  have l6: "lookup 6 (snd (emplace mod_policy shard0 6 ''c6'' two_entries)) = Some 2"
    by (simp add: emplace_lookup_present [OF owning_6 slot_free_two_entries])
       (simp add: lookup_def two_entries_def)
  have l2: "lookup 2 (snd (remove_node mod_policy shard0 2 two_entries)) = None"
    by (simp add: remove_node_free_slot [OF owning_2 slot_free_two_entries] lookup_def map_erase_def)
       (simp add: two_entries_def)
  have t1: "transports two_entries ! 1 = \<lparr>config = ''c4'', stop_requests = 0\<rparr>"
    by (simp add: two_entries_def)
  have len: "1 < length (transports two_entries)" by (simp add: two_entries_def)
  show ?thesis
    using mutation_frame [OF ne6, of mod_policy shard0 "''c6''" two_entries]
          mutation_frame [OF ne2, of mod_policy shard0 "''c0''" two_entries]
          l4 l6 l2 t1 len
    by simp
qed

subsection \<open>Shutdown\<close>

text \<open>
  C2, as the spec states it: after \<open>insert(A, C1)\<close> and \<open>stop()\<close> the map has zero entries.
  \<open>stop\<close> only iterates over the map; it erases nothing, and in scenario A the map still
  holds the one entry.
\<close>

theorem stop_empties_map_counterexample:
  "cache scenario_A = [(0, 0)] \<and> cache scenario_A \<noteq> [] \<and> length (cache scenario_A) = 1"
  by (simp add: scenario_A_value)

text \<open>
  C2, amended: after \<open>insert(A, C1)\<close> on the owning shard (slot free, no entry for \<open>A\<close>
  before) followed by \<open>stop()\<close>, the map is the one the insert left, still with the entry
  for \<open>A\<close>, and the transport built from \<open>C1\<close> has received exactly one shutdown request.
\<close>

theorem emplace_then_stop:
  assumes "shard_for policy e n = cpu_id e" and "slot_free st" and "well_formed st"
    and "lookup n st = None"
  shows "let st1 = snd (emplace policy e n c1 st);
             st2 = snd (stop oc st1);
             h = length (transports st)
         in lookup n st2 = Some h \<and>
            cache st2 = cache st1 \<and>
            length (cache st2) = Suc (length (cache st)) \<and>
            config (transports st2 ! h) = c1 \<and>
            stop_requests (transports st2 ! h) = 1"
proof -
  let ?st1 = "snd (emplace policy e n c1 st)"
  let ?st2 = "snd (stop oc ?st1)"
  let ?h = "length (transports st)"
  have st1: "?st1 = st\<lparr>cache := cache st @ [(n, ?h)],
                       transports := transports st @ [\<lparr>config = c1, stop_requests = 0\<rparr>]\<rparr>"
    using assms(4) by (simp add: emplace_free_slot [OF assms(1,2)] map_emplace_def lookup_def)
  have cache2: "cache ?st2 = cache ?st1" by (simp add: stop_def split_beta)
  have "lookup n ?st2 = lookup n ?st1" by (simp add: lookup_def cache2)
  then have look: "lookup n ?st2 = Some ?h"
    using assms(4) by (simp add: emplace_lookup_present [OF assms(1,2)])
  have old: "?h \<notin> snd ` set (cache st)"
    using assms(3) by (auto simp: well_formed_def list_all_iff)
  then have cnt: "count_list (map snd (cache ?st1)) ?h = 1"
    by (simp add: st1 count_list_0_iff [THEN iffD2])
  have inr: "?h < length (transports ?st1)" by (simp add: st1)
  have req: "stop_requests (transports ?st2 ! ?h) = stop_requests (transports ?st1 ! ?h) + 1"
    using stop_all_requests [OF inr, of "cache ?st1" oc] cnt by (simp add: stop_def split_beta)
  have cfg: "config (transports ?st2 ! ?h) = config (transports ?st1 ! ?h)"
    using stop_all_config [OF inr, of "cache ?st1" oc] by (simp add: stop_def split_beta)
  show ?thesis
    using look cache2 req cfg by (simp add: Let_def) (simp add: st1)
qed

theorem emplace_then_stop_witness:
  "shard_for mod_policy shard0 0 = cpu_id shard0 \<and> slot_free initial \<and>
   well_formed (initial :: string connection_cache) \<and>
   lookup 0 (initial :: string connection_cache) = None \<and>
   lookup 0 (snd (stop no_failure (snd (emplace mod_policy shard0 0 ''C1'' initial)))) = Some 0 \<and>
   config (transports (snd (stop no_failure (snd (emplace mod_policy shard0 0 ''C1'' initial)))) ! 0)
     = ''C1'' \<and>
   stop_requests
     (transports (snd (stop no_failure (snd (emplace mod_policy shard0 0 ''C1'' initial)))) ! 0) = 1"
proof -
  have absent: "lookup 0 (initial :: string connection_cache) = None"
    by (simp add: lookup_def initial_def)
  show ?thesis
    using emplace_then_stop
            [OF owning_0 slot_free_initial well_formed_initial absent, of "''C1''" no_failure]
    by (simp add: Let_def owning_0 slot_free_initial well_formed_initial absent)
       (simp add: initial_def)
qed

text \<open>
  C5. If the shutdown of some entry's transport fails, \<open>stop\<close> has still requested the
  shutdown of every entry's transport, exactly once each, and left the map as it was. As
  long as the shutdown of any other entry has not finished, the future \<open>stop\<close> returned is
  not resolved: the caller is still waiting and has not seen the failure. Once every
  shutdown has finished, that future is failed, with the exception of one of the failed
  shutdowns. The state \<open>stop\<close> leaves behind is the same however far the shutdowns have got.
\<close>

theorem stop_waits_for_every_shutdown:
  assumes "well_formed st" and "(n, h) \<in> set (cache st)" and "oc h = Excepted x"
  shows "(\<forall>it \<in> set (cache st).
            stop_requests (transports (snd (stop oc st)) ! snd it) =
              Suc (stop_requests (transports st ! snd it))) \<and>
         cache (snd (stop oc st)) = cache st \<and>
         snd (stop oc' st) = snd (stop oc st) \<and>
         ((\<exists>it \<in> set (cache st). oc (snd it) = Pending) \<longrightarrow> fst (stop oc st) = Waiting) \<and>
         ((\<forall>it \<in> set (cache st). oc (snd it) \<noteq> Pending) \<longrightarrow>
            fst (stop oc st) = Failed (failures oc (cache st)) \<and>
            x \<in> set (failures oc (cache st)) \<and>
            set (failures oc (cache st)) =
              {y. \<exists>it \<in> set (cache st). oc (snd it) = Excepted y})"
proof -
  let ?r = "parallel_for_each (cache st) (\<lambda>it. transport_stop oc (snd it)) (transports st)"
  have res: "fst (stop oc st) = fst ?r" and trs: "transports (snd (stop oc st)) = snd ?r"
    and map_same: "cache (snd (stop oc st)) = cache st"
    by (simp_all add: stop_def split_beta)
  have indep: "snd (stop oc' st) = snd (stop oc st)"
    using stop_all_state [of "cache st" oc' "transports st" oc]
    by (simp add: stop_def split_beta)
  have x_in: "x \<in> set (failures oc (cache st))"
    using assms(2,3) by (force simp: set_failures)
  then have nonempty: "failures oc (cache st) \<noteq> []" by auto
  have waiting: "fst ?r = Waiting" if "\<exists>it \<in> set (cache st). oc (snd it) = Pending"
    using that by (simp add: stop_all_future)
  have failed: "fst ?r = Failed (failures oc (cache st))"
    if "\<forall>it \<in> set (cache st). oc (snd it) \<noteq> Pending"
    using that nonempty by (simp add: stop_all_future)
  have each: "stop_requests (snd ?r ! snd it) = Suc (stop_requests (transports st ! snd it))"
    if "it \<in> set (cache st)" for it
  proof -
    have inr: "snd it < length (transports st)"
      using assms(1) that by (auto simp: well_formed_def list_all_iff)
    have d: "distinct (map snd (cache st))"
      using assms(1) by (simp add: well_formed_def)
    have m: "snd it \<in> set (map snd (cache st))"
      using that by simp
    have "count_list (map snd (cache st)) (snd it) = 1"
      by (rule count_list_distinct [OF d m])
    then show ?thesis using stop_all_requests [OF inr, of "cache st" oc] by simp
  qed
  show ?thesis
    using each map_same waiting failed x_in indep
    by (simp add: res trs set_failures)
qed

theorem stop_waits_for_every_shutdown_witness:
  "well_formed two_entries \<and> (2, 0) \<in> set (cache two_entries) \<and>
   first_failed_rest_pending 0 = Excepted (transport_failure ''connection reset'') \<and>
   first_failed_rest_pending 1 = Pending \<and>
   fst (stop first_failed_rest_pending two_entries) = Waiting \<and>
   stop_requests (transports (snd (stop first_failed_rest_pending two_entries)) ! 0) = 1 \<and>
   stop_requests (transports (snd (stop first_failed_rest_pending two_entries)) ! 1) = 1 \<and>
   first_failed_rest_done 0 = Excepted (transport_failure ''connection reset'') \<and>
   first_failed_rest_done 1 = Resolved \<and>
   fst (stop first_failed_rest_done two_entries) = Failed [transport_failure ''connection reset''] \<and>
   stop_requests (transports (snd (stop first_failed_rest_done two_entries)) ! 1) = 1 \<and>
   snd (stop first_failed_rest_done two_entries) = snd (stop first_failed_rest_pending two_entries)"
proof -
  have mem: "(2, 0) \<in> set (cache two_entries)" by (simp add: two_entries_def)
  have p0: "first_failed_rest_pending 0 = Excepted (transport_failure ''connection reset'')"
    and d0: "first_failed_rest_done 0 = Excepted (transport_failure ''connection reset'')"
    by (simp_all add: first_failed_rest_pending_def first_failed_rest_done_def)
  show ?thesis
    using stop_waits_for_every_shutdown
            [where st = two_entries and oc = first_failed_rest_pending and n = 2 and h = 0
               and x = "transport_failure ''connection reset''" and oc' = first_failed_rest_done,
             OF well_formed_two_entries mem p0]
          stop_waits_for_every_shutdown
            [where st = two_entries and oc = first_failed_rest_done and n = 2 and h = 0
               and x = "transport_failure ''connection reset''" and oc' = first_failed_rest_pending,
             OF well_formed_two_entries mem d0]
    by (simp add: stop_def transport_stop_def two_entries_def well_formed_def
          first_failed_rest_pending_def first_failed_rest_done_def)
qed

subsection \<open>The placement policy\<close>

text \<open>
  C8. \<open>shard_for\<close> is a function of the node identifier and the shard count alone: for a
  fixed shard count, two calls with the same node identifier return the same shard index,
  whichever shard makes the call.
\<close>

theorem shard_for_deterministic:
  assumes "smp_count e1 = smp_count e2"
  shows "shard_for policy e1 n = shard_for policy e2 n"
  using assms by (simp add: shard_for_def)

theorem shard_for_deterministic_witness:
  "smp_count shard0 = smp_count shard1 \<and>
   shard_for mod_policy shard0 5 = shard_for mod_policy shard1 5 \<and>
   shard_for mod_policy shard0 5 = 1"
proof -
  have h: "smp_count shard0 = smp_count shard1" by (simp add: shard0_def shard1_def)
  show ?thesis
    using h shard_for_deterministic [OF h, of mod_policy 5]
    by (simp add: shard_for_def mod_policy_def shard0_def)
qed

end
